theory Spec2Isabelle
  imports Main "HOL-Library.Word"
begin

section \<open>Strings of the source language\<close>

text \<open>
  The program is JavaScript (\<^verbatim>\<open>src/index.js\<close>). A JavaScript string is a sequence
  of 16-bit code units, and a regular expression without the \<^verbatim>\<open>u\<close> flag works on
  single code units, so a string is a list of 16-bit words here.
\<close>

type_synonym jsstring = "16 word list"

definition ofStr :: "string \<Rightarrow> jsstring" where
  "ofStr s = map of_char s"

definition QUOTE :: "16 word" where "QUOTE = 0x27"
definition UNDERSCORE :: "16 word" where "UNDERSCORE = 0x5F"
definition BACKSLASH :: "16 word" where "BACKSLASH = 0x5C"
definition SLASH :: "16 word" where "SLASH = 0x2F"
definition LF :: "16 word" where "LF = 0x0A"
definition COLON :: "16 word" where "COLON = 0x3A"

text \<open>
  \<^verbatim>\<open>`${ts}`\<close> for the non-negative integer that \<^verbatim>\<open>Date.now()\<close> returns: its
  decimal digits, most significant first, no leading zero.
\<close>

definition digit :: "nat \<Rightarrow> 16 word" where
  "digit d = of_nat (48 + d)"

fun show_nat :: "nat \<Rightarrow> jsstring" where
  "show_nat n = (if n < 10 then [digit n] else show_nat (n div 10) @ [digit (n mod 10)])"

declare show_nat.simps [simp del]

section \<open>Storage staging: the \<^verbatim>\<open>filename\<close> callback of \<^verbatim>\<open>multer.diskStorage\<close>\<close>

text \<open>
  \<^verbatim>\<open>file.originalname.replace(/[^a-zA-Z0-9.\-]/g, "_")\<close>: the character class of the
  source, which has no underscore in it.
\<close>

definition keep_class :: "16 word \<Rightarrow> bool" where
  "keep_class c \<longleftrightarrow>
     (0x61 \<le> c \<and> c \<le> 0x7A) \<or> (0x41 \<le> c \<and> c \<le> 0x5A) \<or> (0x30 \<le> c \<and> c \<le> 0x39)
     \<or> c = 0x2E \<or> c = 0x2D"

definition safeName :: "jsstring \<Rightarrow> jsstring" where
  "safeName originalname = map (\<lambda>c. if keep_class c then c else UNDERSCORE) originalname"

text \<open>\<^verbatim>\<open>cb(null, `${ts}_${safeName}`)\<close>\<close>

definition filename :: "nat \<Rightarrow> jsstring \<Rightarrow> jsstring" where
  "filename ts originalname = show_nat ts @ [UNDERSCORE] @ safeName originalname"

text \<open>
  The sanitisation as the specification words it: every character outside
  \<^verbatim>\<open>[A-Za-z0-9._-]\<close> (underscore included in the class) becomes an underscore.
\<close>

definition spec_class :: "16 word \<Rightarrow> bool" where
  "spec_class c \<longleftrightarrow>
     (0x41 \<le> c \<and> c \<le> 0x5A) \<or> (0x61 \<le> c \<and> c \<le> 0x7A) \<or> (0x30 \<le> c \<and> c \<le> 0x39)
     \<or> c = 0x2E \<or> c = 0x5F \<or> c = 0x2D"

definition spec_sanitize :: "jsstring \<Rightarrow> jsstring" where
  "spec_sanitize name = map (\<lambda>c. if spec_class c then c else UNDERSCORE) name"

section \<open>Paths\<close>

text \<open>
  \<^verbatim>\<open>path.join(uploadDir, name)\<close> belongs to the runtime, not to the repository.
  The directory is the result of an earlier \<^verbatim>\<open>path.join\<close> and the second argument
  is a single plain segment, so the result is the directory, the platform's separator
  and the segment.
\<close>

definition path_join :: "jsstring \<Rightarrow> jsstring \<Rightarrow> jsstring \<Rightarrow> jsstring" where
  "path_join sep dir name = dir @ sep @ name"

text \<open>\<^verbatim>\<open>path.join(uploadDir, `concat_${Date.now()}.txt`)\<close>\<close>

definition concatListPath :: "jsstring \<Rightarrow> jsstring \<Rightarrow> nat \<Rightarrow> jsstring" where
  "concatListPath sep uploadDir now =
     path_join sep uploadDir (ofStr ''concat_'' @ show_nat now @ ofStr ''.txt'')"

text \<open>\<^verbatim>\<open>path.join(uploadDir, `merged_${Date.now()}.mp4`)\<close>\<close>

definition outputPath :: "jsstring \<Rightarrow> jsstring \<Rightarrow> nat \<Rightarrow> jsstring" where
  "outputPath sep uploadDir now =
     path_join sep uploadDir (ofStr ''merged_'' @ show_nat now @ ofStr ''.mp4'')"

text \<open>
  \<^verbatim>\<open>path.isAbsolute\<close> of the runtime. Where the separator is the backslash: the
  path starts with a slash or a backslash, or with a drive letter, a colon and a slash
  or backslash. Elsewhere: the path starts with a slash.
\<close>

definition is_absolute :: "jsstring \<Rightarrow> jsstring \<Rightarrow> bool" where
  "is_absolute sp p =
     (if sp = [BACKSLASH]
      then (case p of
              [] \<Rightarrow> False
            | c # rest \<Rightarrow>
                c = SLASH \<or> c = BACKSLASH
                \<or> (((0x41 \<le> c \<and> c \<le> 0x5A) \<or> (0x61 \<le> c \<and> c \<le> 0x7A))
                    \<and> (case rest of
                          d # e # _ \<Rightarrow> d = COLON \<and> (e = SLASH \<or> e = BACKSLASH)
                        | _ \<Rightarrow> False)))
      else (case p of [] \<Rightarrow> False | c # _ \<Rightarrow> c = SLASH))"

section \<open>Manifest builder\<close>

text \<open>
  The file object that multer hands to the handler; of its fields the program reads
  \<^verbatim>\<open>originalname\<close> (when naming the staged file) and \<^verbatim>\<open>path\<close>.
\<close>

record upload_file =
  originalname :: jsstring
  path :: jsstring

text \<open>
  What multer's disk storage makes of one uploaded part with the two callbacks of the
  source: the destination is the upload directory, the name is \<^verbatim>\<open>filename\<close> at
  the clock reading of that call, and the file is stored at
  \<^verbatim>\<open>path.join(destination, filename)\<close>.
\<close>

definition stage :: "jsstring \<Rightarrow> jsstring \<Rightarrow> nat \<Rightarrow> jsstring \<Rightarrow> upload_file" where
  "stage sp dir ts name = \<lparr>originalname = name, path = path_join sp dir (filename ts name)\<rparr>"

text \<open>\<^verbatim>\<open>file.path.replace(/\\/g, "/")\<close>\<close>

definition forward_slashes :: "jsstring \<Rightarrow> jsstring" where
  "forward_slashes p = map (\<lambda>c. if c = BACKSLASH then SLASH else c) p"

text \<open>
  The normalisation as the specification words it: the path with its separators, the
  platform's separator \<open>sp\<close>, turned into forward slashes.
\<close>

definition spec_normalize :: "jsstring \<Rightarrow> jsstring \<Rightarrow> jsstring" where
  "spec_normalize sp p = map (\<lambda>c. if [c] = sp then SLASH else c) p"

text \<open>\<^verbatim>\<open>`file '${file.path.replace(/\\/g, "/")}'`\<close>\<close>

definition list_entry :: "upload_file \<Rightarrow> jsstring" where
  "list_entry f = ofStr ''file '' @ [QUOTE] @ forward_slashes (path f) @ [QUOTE]"

text \<open>\<^verbatim>\<open>Array.prototype.join("\n")\<close>\<close>

fun join_lf :: "jsstring list \<Rightarrow> jsstring" where
  "join_lf [] = []"
| "join_lf [x] = x"
| "join_lf (x # y # ys) = x @ [LF] @ join_lf (y # ys)"

definition listContent :: "upload_file list \<Rightarrow> jsstring" where
  "listContent files = join_lf (map list_entry files)"

text \<open>
  The lines of a text, as \<^verbatim>\<open>String.prototype.split("\n")\<close> gives them: the pieces
  between the line feeds, one more than there are line feeds.
\<close>

fun split_lf :: "jsstring \<Rightarrow> jsstring list" where
  "split_lf [] = [[]]"
| "split_lf (c # cs) =
     (if c = LF then [] # split_lf cs
      else (case split_lf cs of l # ls \<Rightarrow> (c # l) # ls | [] \<Rightarrow> [[c]]))"

section \<open>The observable behaviour of a request\<close>

text \<open>
  What the handler does to the outside is kept as a trace of events, in the order in
  which the program performs them; the working directory is the set of paths that
  exist. Console output is not modelled.
\<close>

datatype event =
    WriteFile jsstring jsstring
  | RunFfmpeg jsstring jsstring
  | CleanupCall "upload_file list" "jsstring option" "jsstring option"
  | Remove jsstring bool
  | RespondJson nat "(string \<times> jsstring) list"
  | RespondDownload jsstring jsstring "jsstring option"

record state =
  fs :: "jsstring set"
  trace :: "event list"

definition emit :: "event \<Rightarrow> state \<Rightarrow> state" where
  "emit e s = s\<lparr>trace := trace s @ [e]\<rparr>"

text \<open>How an awaited call completes: it returns, or its promise rejects.\<close>

datatype completion = Returned | Threw

text \<open>
  What the surroundings decide during one request: the outcome of the upload (multer
  reports an error, or leaves \<^verbatim>\<open>req.files\<close> undefined for a request that is not
  multipart, or sets it to the staged files), the two readings of the clock, whether
  \<^verbatim>\<open>fs.writeFile\<close> rejects, which event fluent-ffmpeg emits (and, on an error,
  whether the tool had already created the output file), whether sending the download
  fails, and which paths \<^verbatim>\<open>fs.remove\<close> fails on.
\<close>

datatype upload_outcome = UploadFailed jsstring | Uploaded "upload_file list option"

datatype ffmpeg_outcome = FfError jsstring bool | FfEnd

record world =
  sep :: jsstring
  uploadDir :: jsstring
  upload :: upload_outcome
  now_list :: nat
  now_output :: nat
  writeFile_error :: "jsstring option"
  ffmpeg_result :: ffmpeg_outcome
  sendErr :: "jsstring option"
  remove_fails :: "jsstring \<Rightarrow> bool"

section \<open>Cleanup sweeper\<close>

text \<open>
  \<^verbatim>\<open>fs.remove(p)\<close> of fs-extra: removes the path; a path that does not exist is
  not an error. The promise rejects where the surroundings refuse the removal.
\<close>

definition fs_remove :: "(jsstring \<Rightarrow> bool) \<Rightarrow> jsstring \<Rightarrow> state \<Rightarrow> completion \<times> state" where
  "fs_remove fails p s =
     (if fails p then (Threw, emit (Remove p False) s)
      else (Returned, emit (Remove p True) (s\<lparr>fs := fs s - {p}\<rparr>)))"

text \<open>\<^verbatim>\<open>for (const file of uploadedFiles) { await fs.remove(file.path); }\<close>\<close>

fun remove_uploaded :: "(jsstring \<Rightarrow> bool) \<Rightarrow> upload_file list \<Rightarrow> state \<Rightarrow> completion \<times> state" where
  "remove_uploaded fails [] s = (Returned, s)"
| "remove_uploaded fails (f # rest) s =
     (case fs_remove fails (path f) s of
        (Threw, s') \<Rightarrow> (Threw, s')
      | (Returned, s') \<Rightarrow> remove_uploaded fails rest s')"

text \<open>
  \<^verbatim>\<open>if (p) await fs.remove(p)\<close>: \<^verbatim>\<open>null\<close> and the empty string are falsy.
\<close>

definition remove_if_given :: "(jsstring \<Rightarrow> bool) \<Rightarrow> jsstring option \<Rightarrow> state \<Rightarrow> completion \<times> state" where
  "remove_if_given fails p s =
     (case p of
        None \<Rightarrow> (Returned, s)
      | Some q \<Rightarrow> if q = [] then (Returned, s) else fs_remove fails q s)"

text \<open>The body of the \<^verbatim>\<open>try\<close> block of \<^verbatim>\<open>cleanup\<close>.\<close>

definition cleanup_try ::
  "(jsstring \<Rightarrow> bool) \<Rightarrow> upload_file list \<Rightarrow> jsstring option \<Rightarrow> jsstring option \<Rightarrow> state
     \<Rightarrow> completion \<times> state" where
  "cleanup_try fails uploadedFiles listFile mergedFile s =
     (case remove_uploaded fails uploadedFiles s of
        (Threw, s1) \<Rightarrow> (Threw, s1)
      | (Returned, s1) \<Rightarrow>
          (case remove_if_given fails listFile s1 of
             (Threw, s2) \<Rightarrow> (Threw, s2)
           | (Returned, s2) \<Rightarrow> remove_if_given fails mergedFile s2))"

text \<open>
  \<^verbatim>\<open>async function cleanup(uploadedFiles, listFile, mergedFile)\<close>: the
  \<^verbatim>\<open>catch\<close> only writes to the console.
\<close>

definition cleanup ::
  "(jsstring \<Rightarrow> bool) \<Rightarrow> upload_file list \<Rightarrow> jsstring option \<Rightarrow> jsstring option \<Rightarrow> state
     \<Rightarrow> completion \<times> state" where
  "cleanup fails uploadedFiles listFile mergedFile s =
     (case cleanup_try fails uploadedFiles listFile mergedFile
             (emit (CleanupCall uploadedFiles listFile mergedFile) s) of
        (Threw, s') \<Rightarrow> (Returned, s')
      | (Returned, s') \<Rightarrow> (Returned, s'))"

section \<open>Job orchestrator: the handler of \<^verbatim>\<open>POST /merge\<close>\<close>

text \<open>
  multer has written every file of \<^verbatim>\<open>req.files\<close> to its path before it calls the
  handler's callback.
\<close>

definition staged :: "upload_file list \<Rightarrow> state \<Rightarrow> state" where
  "staged files s = s\<lparr>fs := fs s \<union> set (map path files)\<rparr>"

text \<open>
  The two listeners of the ffmpeg command. On \<^verbatim>\<open>error\<close>: cleanup without the output
  path, then the JSON answer. On \<^verbatim>\<open>end\<close>: the download, and in its callback the
  cleanup with the output path.
\<close>

definition on_error ::
  "world \<Rightarrow> upload_file list \<Rightarrow> jsstring \<Rightarrow> jsstring \<Rightarrow> state \<Rightarrow> state" where
  "on_error w files listPath message s =
     (case cleanup (remove_fails w) files (Some listPath) None s of
        (Threw, s') \<Rightarrow> s'
      | (Returned, s') \<Rightarrow>
          emit (RespondJson 500
                  [(''error'', ofStr ''Video merge failed''), (''details'', message)]) s')"

definition on_end ::
  "world \<Rightarrow> upload_file list \<Rightarrow> jsstring \<Rightarrow> jsstring \<Rightarrow> state \<Rightarrow> state" where
  "on_end w files listPath outPath s =
     snd (cleanup (remove_fails w) files (Some listPath) (Some outPath)
            (emit (RespondDownload outPath (ofStr ''merged.mp4'') (sendErr w)) s))"

text \<open>
  The external tool runs on the manifest; when it ends the output file exists, and
  when it fails the output file may exist in part.
\<close>

definition run_ffmpeg ::
  "world \<Rightarrow> upload_file list \<Rightarrow> jsstring \<Rightarrow> jsstring \<Rightarrow> state \<Rightarrow> state" where
  "run_ffmpeg w files listPath outPath s =
     (let s1 = emit (RunFfmpeg listPath outPath) s in
      case ffmpeg_result w of
        FfError message partial \<Rightarrow>
          on_error w files listPath message
            (if partial then s1\<lparr>fs := fs s1 \<union> {outPath}\<rparr> else s1)
      | FfEnd \<Rightarrow> on_end w files listPath outPath (s1\<lparr>fs := fs s1 \<union> {outPath}\<rparr>))"

text \<open>
  The \<^verbatim>\<open>try\<close> block after the validation, with its \<^verbatim>\<open>catch\<close>: a rejected
  \<^verbatim>\<open>fs.writeFile\<close> leads to the removal of the manifest path alone (a failure of
  that removal is swallowed) and to the \<^verbatim>\<open>Server error\<close> answer.
\<close>

definition process :: "world \<Rightarrow> upload_file list \<Rightarrow> state \<Rightarrow> state" where
  "process w files s =
     (let listPath = concatListPath (sep w) (uploadDir w) (now_list w) in
      case writeFile_error w of
        Some message \<Rightarrow>
          emit (RespondJson 500 [(''error'', ofStr ''Server error''), (''details'', message)])
            (snd (fs_remove (remove_fails w) listPath s))
      | None \<Rightarrow>
          run_ffmpeg w files listPath (outputPath (sep w) (uploadDir w) (now_output w))
            (emit (WriteFile listPath (listContent files)) (s\<lparr>fs := fs s \<union> {listPath}\<rparr>)))"

text \<open>
  The callback given to \<^verbatim>\<open>upload(req, res, ...)\<close>. The condition
  \<^verbatim>\<open>!files || files.length < 2\<close> reads the length only of a list that is there.
  On an upload error the handler only answers; what multer does to the files it had
  stored by then is not part of this program, and the working directory is left as it
  was.
\<close>

definition merge_handler :: "world \<Rightarrow> state \<Rightarrow> state" where
  "merge_handler w s =
     (case upload w of
        UploadFailed message \<Rightarrow>
          emit (RespondJson 500 [(''error'', ofStr ''Upload failed''), (''details'', message)]) s
      | Uploaded None \<Rightarrow>
          emit (RespondJson 400 [(''error'', ofStr ''Please upload at least 2 videos to merge'')]) s
      | Uploaded (Some files) \<Rightarrow>
          (if length files < 2
           then emit (RespondJson 400
                        [(''error'', ofStr ''Please upload at least 2 videos to merge'')])
                  (staged files s)
           else process w files (staged files s)))"

text \<open>Projections of a trace.\<close>

definition cleanup_calls :: "event list \<Rightarrow> event list" where
  "cleanup_calls t = filter (\<lambda>e. case e of CleanupCall _ _ _ \<Rightarrow> True | _ \<Rightarrow> False) t"

definition responses :: "event list \<Rightarrow> event list" where
  "responses t =
     filter (\<lambda>e. case e of RespondJson _ _ \<Rightarrow> True | RespondDownload _ _ _ \<Rightarrow> True | _ \<Rightarrow> False) t"

definition removal_attempts :: "event list \<Rightarrow> jsstring list" where
  "removal_attempts t = concat (map (\<lambda>e. case e of Remove p _ \<Rightarrow> [p] | _ \<Rightarrow> []) t)"

definition init :: "jsstring set \<Rightarrow> state" where
  "init files = \<lparr>fs = files, trace = []\<rparr>"

section \<open>Auxiliary notions for the proofs\<close>

text \<open>
  The paths that a call of \<^verbatim>\<open>cleanup\<close> goes through, in its order: the uploaded
  files, then the list file and the merged file where they are given.
\<close>

definition given :: "jsstring option \<Rightarrow> jsstring list" where
  "given p = (case p of None \<Rightarrow> [] | Some q \<Rightarrow> if q = [] then [] else [q])"

definition artifacts :: "upload_file list \<Rightarrow> jsstring option \<Rightarrow> jsstring option \<Rightarrow> jsstring list" where
  "artifacts files listFile mergedFile = map path files @ given listFile @ given mergedFile"

text \<open>Removing a list of paths one after the other, stopping at the first rejection.\<close>

fun remove_seq :: "(jsstring \<Rightarrow> bool) \<Rightarrow> jsstring list \<Rightarrow> state \<Rightarrow> completion \<times> state" where
  "remove_seq fails [] s = (Returned, s)"
| "remove_seq fails (p # ps) s =
     (case fs_remove fails p s of
        (Threw, s') \<Rightarrow> (Threw, s')
      | (Returned, s') \<Rightarrow> remove_seq fails ps s')"

text \<open>
  The paths of a list that are reached and removed (those before the first one whose
  removal fails), and the removal events this gives: a successful one for each of them
  and a failed one for the first failing path.
\<close>

definition removed_paths :: "(jsstring \<Rightarrow> bool) \<Rightarrow> jsstring list \<Rightarrow> jsstring list" where
  "removed_paths fails ps = takeWhile (\<lambda>p. \<not> fails p) ps"

definition removal_events :: "(jsstring \<Rightarrow> bool) \<Rightarrow> jsstring list \<Rightarrow> event list" where
  "removal_events fails ps =
     map (\<lambda>p. Remove p True) (removed_paths fails ps)
     @ map (\<lambda>p. Remove p False) (take 1 (dropWhile (\<lambda>p. \<not> fails p) ps))"

text \<open>The \<^verbatim>\<open>details\<close> field of a JSON answer, if it has one.\<close>

definition details_of :: "event \<Rightarrow> jsstring option" where
  "details_of e = (case e of RespondJson _ body \<Rightarrow> map_of body ''details'' | _ \<Rightarrow> None)"

section \<open>Example requests\<close>

text \<open>
  Two files staged in the directory \<^verbatim>\<open>/u\<close> at clock reading 1, and surroundings in
  which everything succeeds; the examples below vary single fields of it.
\<close>

definition ex_a :: upload_file where
  "ex_a = \<lparr>originalname = ofStr ''a.mp4'', path = ofStr ''/u/1_a.mp4''\<rparr>"

definition ex_b :: upload_file where
  "ex_b = \<lparr>originalname = ofStr ''b.mp4'', path = ofStr ''/u/1_b.mp4''\<rparr>"

definition ex_world :: "upload_outcome \<Rightarrow> world" where
  "ex_world up =
     \<lparr>sep = ofStr ''/'', uploadDir = ofStr ''/u'', upload = up, now_list = 2, now_output = 3,
      writeFile_error = None, ffmpeg_result = FfEnd, sendErr = None,
      remove_fails = (\<lambda>p. False)\<rparr>"

text \<open>
  The same service installed under \<^verbatim>\<open>/o'b\<close>, a directory with a single quote in
  its name: every staged path has the quote.
\<close>

definition ex_quoted_dir :: jsstring where
  "ex_quoted_dir = ofStr ''/o'' @ [QUOTE] @ ofStr ''b/u''"

definition ex_qa :: upload_file where
  "ex_qa = \<lparr>originalname = ofStr ''a.mp4'', path = ex_quoted_dir @ ofStr ''/1_a.mp4''\<rparr>"

definition ex_qb :: upload_file where
  "ex_qb = \<lparr>originalname = ofStr ''b.mp4'', path = ex_quoted_dir @ ofStr ''/1_b.mp4''\<rparr>"

text \<open>
  The service installed so that the upload directory is \<^verbatim>\<open>/u<LF>x\<close>, with a line
  feed in a directory name, and the two files as staging puts them there.
\<close>

definition ex_lf_dir :: jsstring where
  "ex_lf_dir = ofStr ''/u'' @ [LF] @ ofStr ''x''"

definition ex_lf_a :: upload_file where
  "ex_lf_a = stage (ofStr ''/'') ex_lf_dir 1 (ofStr ''a.mp4'')"

definition ex_lf_b :: upload_file where
  "ex_lf_b = stage (ofStr ''/'') ex_lf_dir 1 (ofStr ''b.mp4'')"

text \<open>
  The service on a platform whose separator is the backslash, with the upload directory
  \<^verbatim>\<open>C:\u\<close>.
\<close>

definition ex_win_dir :: jsstring where
  "ex_win_dir = ofStr ''C:'' @ [BACKSLASH] @ ofStr ''u''"

definition ex_win_a :: upload_file where
  "ex_win_a = stage [BACKSLASH] ex_win_dir 1 (ofStr ''a.mp4'')"

definition ex_win_b :: upload_file where
  "ex_win_b = stage [BACKSLASH] ex_win_dir 1 (ofStr ''b.mp4'')"

text \<open>Surroundings in which no removal fails, and in which the removal of the first file fails.\<close>

definition ex_refuse_none :: "jsstring \<Rightarrow> bool" where
  "ex_refuse_none p = False"

definition ex_refuse_a :: "jsstring \<Rightarrow> bool" where
  "ex_refuse_a p = (p = path ex_a)"

section \<open>Sanitised names\<close>

lemma spec_class_iff: "spec_class c \<longleftrightarrow> keep_class c \<or> c = UNDERSCORE"
  by (auto simp: spec_class_def keep_class_def UNDERSCORE_def)

lemma spec_class_UNDERSCORE: "spec_class UNDERSCORE"
  by (simp add: spec_class_iff)

lemma safeName_eq_spec: "safeName name = spec_sanitize name"
  by (auto simp: safeName_def spec_sanitize_def spec_class_iff)

lemma length_safeName: "length (safeName name) = length name"
  by (simp add: safeName_def)

lemma safeName_in_class: "c \<in> set (safeName name) \<Longrightarrow> spec_class c"
  by (auto simp: safeName_def spec_class_iff)

lemma safeName_nth:
  "i < length name \<Longrightarrow>
     safeName name ! i = (if spec_class (name ! i) then name ! i else UNDERSCORE)"
  by (auto simp: safeName_def spec_class_iff)

section \<open>Decimal numerals\<close>

lemma unat_digit: "d < 10 \<Longrightarrow> unat (digit d) = 48 + d"
  unfolding digit_def by (rule of_nat_inverse) simp_all

lemma digit_inj:
  assumes "a < 10" and "b < 10" and "digit a = digit b"
  shows "a = b"
proof -
  have "48 + a = unat (digit a)" using assms(1) by (simp only: unat_digit)
  also have "\<dots> = unat (digit b)" by (simp only: assms(3))
  also have "\<dots> = 48 + b" using assms(2) by (simp only: unat_digit)
  finally show ?thesis by simp
qed

lemma digit_range: "d < 10 \<Longrightarrow> 0x30 \<le> digit d \<and> digit d \<le> 0x39"
  using unat_digit [of d] by (simp add: word_le_nat_alt)

lemma show_nat_nonempty: "show_nat n \<noteq> []"
  by (subst show_nat.simps) simp

lemma show_nat_digits: "c \<in> set (show_nat n) \<Longrightarrow> 0x30 \<le> c \<and> c \<le> 0x39"
proof (induction n rule: show_nat.induct)
  case (1 n)
  show ?case
  proof (cases "n < 10")
    case True
    with "1.prems" have "c = digit n" by (simp add: show_nat.simps [of n])
    with True show ?thesis using digit_range by simp
  next
    case False
    with "1.prems" have "c \<in> set (show_nat (n div 10)) \<or> c = digit (n mod 10)"
      by (auto simp: show_nat.simps [of n])
    then show ?thesis
    proof
      assume "c \<in> set (show_nat (n div 10))"
      with False "1.IH" show ?thesis by simp
    next
      assume "c = digit (n mod 10)"
      then show ?thesis using digit_range [of "n mod 10"] by simp
    qed
  qed
qed

lemma show_nat_inj: "show_nat a = show_nat b \<Longrightarrow> a = b"
proof (induction a arbitrary: b rule: show_nat.induct)
  case (1 a)
  show ?case
  proof (cases "a < 10")
    case a: True
    show ?thesis
    proof (cases "b < 10")
      case True
      with a "1.prems" show ?thesis
        by (simp add: show_nat.simps [of a] show_nat.simps [of b] digit_inj)
    next
      case False
      with a "1.prems" show ?thesis
        using show_nat_nonempty [of "b div 10"]
        by (simp add: show_nat.simps [of a] show_nat.simps [of b])
    qed
  next
    case a: False
    show ?thesis
    proof (cases "b < 10")
      case True
      with a "1.prems" show ?thesis
        using show_nat_nonempty [of "a div 10"]
        by (simp add: show_nat.simps [of a] show_nat.simps [of b])
    next
      case False
      with a "1.prems" have "show_nat (a div 10) = show_nat (b div 10)"
        and d: "digit (a mod 10) = digit (b mod 10)"
        by (simp_all add: show_nat.simps [of a] show_nat.simps [of b])
      with a "1.IH" have "a div 10 = b div 10" by simp
      moreover from d have "a mod 10 = b mod 10" by (simp add: digit_inj)
      ultimately show ?thesis by (metis div_mult_mod_eq)
    qed
  qed
qed

lemma show_nat_no_UNDERSCORE: "UNDERSCORE \<notin> set (show_nat n)"
  using show_nat_digits [of UNDERSCORE n] by (auto simp: UNDERSCORE_def)

lemma show_nat_no_QUOTE: "QUOTE \<notin> set (show_nat n)"
  using show_nat_digits [of QUOTE n] by (auto simp: QUOTE_def)

lemma show_nat_no_LF: "LF \<notin> set (show_nat n)"
  using show_nat_digits [of LF n] by (auto simp: LF_def)

lemma split_at_first:
  "c \<notin> set xs \<Longrightarrow> c \<notin> set ys \<Longrightarrow> xs @ c # r = ys @ c # r' \<Longrightarrow> xs = ys"
proof (induction xs arbitrary: ys)
  case Nil
  then show ?case by (cases ys) auto
next
  case (Cons x xs)
  then show ?case by (cases ys) auto
qed

lemma filename_inj_ts:
  assumes "filename ts1 n1 = filename ts2 n2"
  shows "ts1 = ts2"
proof -
  from assms have "show_nat ts1 @ UNDERSCORE # safeName n1 = show_nat ts2 @ UNDERSCORE # safeName n2"
    by (simp add: filename_def)
  then have "show_nat ts1 = show_nat ts2"
    by (rule split_at_first [OF show_nat_no_UNDERSCORE show_nat_no_UNDERSCORE])
  then show ?thesis by (rule show_nat_inj)
qed

section \<open>What cleanup does\<close>

lemma remove_seq_append:
  "remove_seq fails (ps @ qs) s =
     (case remove_seq fails ps s of
        (Threw, s') \<Rightarrow> (Threw, s')
      | (Returned, s') \<Rightarrow> remove_seq fails qs s')"
  by (induction ps arbitrary: s) (auto split: prod.splits completion.splits)

lemma remove_uploaded_seq: "remove_uploaded fails files s = remove_seq fails (map path files) s"
  by (induction files arbitrary: s) (auto split: prod.splits completion.splits)

lemma remove_if_given_seq: "remove_if_given fails p s = remove_seq fails (given p) s"
  by (auto simp: remove_if_given_def given_def split: option.splits prod.splits completion.splits)

lemma cleanup_try_seq:
  "cleanup_try fails files listFile mergedFile s =
     remove_seq fails (artifacts files listFile mergedFile) s"
  by (simp add: cleanup_try_def artifacts_def remove_seq_append remove_uploaded_seq
      remove_if_given_seq split: prod.splits completion.splits)

lemma fst_remove_seq:
  "fst (remove_seq fails ps s) = (if \<exists>p \<in> set ps. fails p then Threw else Returned)"
  by (induction ps arbitrary: s) (auto simp: fs_remove_def)

lemma fs_remove_seq:
  "fs (snd (remove_seq fails ps s)) = fs s - set (removed_paths fails ps)"
  by (induction ps arbitrary: s) (auto simp: fs_remove_def emit_def removed_paths_def)

lemma trace_remove_seq:
  "trace (snd (remove_seq fails ps s)) = trace s @ removal_events fails ps"
  by (induction ps arbitrary: s)
     (auto simp: fs_remove_def emit_def removal_events_def removed_paths_def)

lemma cleanup_snd:
  "snd (cleanup fails files listFile mergedFile s) =
     snd (remove_seq fails (artifacts files listFile mergedFile)
            (emit (CleanupCall files listFile mergedFile) s))"
  by (simp add: cleanup_def cleanup_try_seq split: prod.splits completion.splits)

lemma cleanup_returns: "fst (cleanup fails files listFile mergedFile s) = Returned"
  by (simp add: cleanup_def split: prod.splits completion.splits)

lemma fs_cleanup:
  "fs (snd (cleanup fails files listFile mergedFile s)) =
     fs s - set (removed_paths fails (artifacts files listFile mergedFile))"
  by (simp add: cleanup_snd fs_remove_seq emit_def)

lemma trace_cleanup:
  "trace (snd (cleanup fails files listFile mergedFile s)) =
     trace s @ CleanupCall files listFile mergedFile
       # removal_events fails (artifacts files listFile mergedFile)"
  by (simp add: cleanup_snd trace_remove_seq emit_def)

section \<open>The paths of the handler\<close>

lemma concatListPath_nonempty: "concatListPath sp dir n \<noteq> []"
  by (simp add: concatListPath_def path_join_def ofStr_def)

lemma outputPath_nonempty: "outputPath sp dir n \<noteq> []"
  by (simp add: outputPath_def path_join_def ofStr_def)

lemma on_error_eq:
  "on_error w files lp msg s =
     emit (RespondJson 500 [(''error'', ofStr ''Video merge failed''), (''details'', msg)])
       (snd (cleanup (remove_fails w) files (Some lp) None s))"
  using cleanup_returns [of "remove_fails w" files "Some lp" None s]
  by (cases "cleanup (remove_fails w) files (Some lp) None s") (auto simp: on_error_def)

lemma trace_on_error:
  "trace (on_error w files lp msg s) =
     trace s @ CleanupCall files (Some lp) None
       # removal_events (remove_fails w) (artifacts files (Some lp) None)
       @ [RespondJson 500 [(''error'', ofStr ''Video merge failed''), (''details'', msg)]]"
  by (simp add: on_error_eq emit_def trace_cleanup)

lemma fs_on_error:
  "fs (on_error w files lp msg s) =
     fs s - set (removed_paths (remove_fails w) (artifacts files (Some lp) None))"
  by (simp add: on_error_eq emit_def fs_cleanup)

lemma trace_on_end:
  "trace (on_end w files lp out s) =
     trace s @ RespondDownload out (ofStr ''merged.mp4'') (sendErr w)
       # CleanupCall files (Some lp) (Some out)
       # removal_events (remove_fails w) (artifacts files (Some lp) (Some out))"
  by (simp add: on_end_def emit_def trace_cleanup)

lemma fs_on_end:
  "fs (on_end w files lp out s) =
     fs s - set (removed_paths (remove_fails w) (artifacts files (Some lp) (Some out)))"
  by (simp add: on_end_def emit_def fs_cleanup)


lemma given_concatListPath: "given (Some (concatListPath sp dir n)) = [concatListPath sp dir n]"
  by (simp add: given_def concatListPath_nonempty)

lemma given_None: "given None = []"
  by (simp add: given_def)

lemma given_outputPath: "given (Some (outputPath sp dir n)) = [outputPath sp dir n]"
  by (simp add: given_def outputPath_nonempty)

lemma trace_run_ffmpeg_end:
  "ffmpeg_result w = FfEnd \<Longrightarrow>
   trace (run_ffmpeg w files lp out s) =
     trace s @ [RunFfmpeg lp out, RespondDownload out (ofStr ''merged.mp4'') (sendErr w),
                CleanupCall files (Some lp) (Some out)]
       @ removal_events (remove_fails w) (artifacts files (Some lp) (Some out))"
  by (simp add: run_ffmpeg_def Let_def trace_on_end emit_def)

lemma fs_run_ffmpeg_end:
  "ffmpeg_result w = FfEnd \<Longrightarrow>
   fs (run_ffmpeg w files lp out s) =
     (fs s \<union> {out}) - set (removed_paths (remove_fails w) (artifacts files (Some lp) (Some out)))"
  by (simp add: run_ffmpeg_def Let_def fs_on_end emit_def)

lemma trace_run_ffmpeg_error:
  "ffmpeg_result w = FfError msg partial \<Longrightarrow>
   trace (run_ffmpeg w files lp out s) =
     trace s @ [RunFfmpeg lp out, CleanupCall files (Some lp) None]
       @ removal_events (remove_fails w) (artifacts files (Some lp) None)
       @ [RespondJson 500 [(''error'', ofStr ''Video merge failed''), (''details'', msg)]]"
  by (simp add: run_ffmpeg_def Let_def trace_on_error emit_def)

lemma fs_run_ffmpeg_error:
  "ffmpeg_result w = FfError msg partial \<Longrightarrow>
   fs (run_ffmpeg w files lp out s) =
     (fs s \<union> (if partial then {out} else {}))
       - set (removed_paths (remove_fails w) (artifacts files (Some lp) None))"
  by (simp add: run_ffmpeg_def Let_def fs_on_error emit_def)

lemma handler_merging:
  "upload w = Uploaded (Some files) \<Longrightarrow> 2 \<le> length files \<Longrightarrow> writeFile_error w = None \<Longrightarrow>
   merge_handler w s =
     run_ffmpeg w files (concatListPath (sep w) (uploadDir w) (now_list w))
       (outputPath (sep w) (uploadDir w) (now_output w))
       (emit (WriteFile (concatListPath (sep w) (uploadDir w) (now_list w)) (listContent files))
          ((staged files s)\<lparr>fs := fs (staged files s)
              \<union> {concatListPath (sep w) (uploadDir w) (now_list w)}\<rparr>))"
  by (simp add: merge_handler_def process_def Let_def)

lemma handler_too_few:
  "upload w = Uploaded (Some files) \<Longrightarrow> length files < 2 \<Longrightarrow>
   merge_handler w s =
     emit (RespondJson 400 [(''error'', ofStr ''Please upload at least 2 videos to merge'')])
       (staged files s)"
  by (simp add: merge_handler_def)

lemma handler_no_files:
  "upload w = Uploaded None \<Longrightarrow>
   merge_handler w s =
     emit (RespondJson 400 [(''error'', ofStr ''Please upload at least 2 videos to merge'')]) s"
  by (simp add: merge_handler_def)

lemma trace_handler_end:
  assumes "upload w = Uploaded (Some files)" and "2 \<le> length files"
    and "writeFile_error w = None" and "ffmpeg_result w = FfEnd"
  shows "trace (merge_handler w s) =
     trace s @ [WriteFile (concatListPath (sep w) (uploadDir w) (now_list w)) (listContent files),
                RunFfmpeg (concatListPath (sep w) (uploadDir w) (now_list w))
                  (outputPath (sep w) (uploadDir w) (now_output w)),
                RespondDownload (outputPath (sep w) (uploadDir w) (now_output w))
                  (ofStr ''merged.mp4'') (sendErr w),
                CleanupCall files (Some (concatListPath (sep w) (uploadDir w) (now_list w)))
                  (Some (outputPath (sep w) (uploadDir w) (now_output w)))]
       @ removal_events (remove_fails w)
           (map path files @ [concatListPath (sep w) (uploadDir w) (now_list w),
                              outputPath (sep w) (uploadDir w) (now_output w)])"
  using assms
  by (simp add: handler_merging trace_run_ffmpeg_end emit_def artifacts_def staged_def
      given_concatListPath given_outputPath)

lemma trace_handler_error:
  assumes "upload w = Uploaded (Some files)" and "2 \<le> length files"
    and "writeFile_error w = None" and "ffmpeg_result w = FfError msg partial"
  shows "trace (merge_handler w s) =
     trace s @ [WriteFile (concatListPath (sep w) (uploadDir w) (now_list w)) (listContent files),
                RunFfmpeg (concatListPath (sep w) (uploadDir w) (now_list w))
                  (outputPath (sep w) (uploadDir w) (now_output w)),
                CleanupCall files (Some (concatListPath (sep w) (uploadDir w) (now_list w))) None]
       @ removal_events (remove_fails w)
           (map path files @ [concatListPath (sep w) (uploadDir w) (now_list w)])
       @ [RespondJson 500 [(''error'', ofStr ''Video merge failed''), (''details'', msg)]]"
  using assms
  by (simp add: handler_merging trace_run_ffmpeg_error emit_def artifacts_def staged_def
      given_concatListPath given_None)

lemma fs_handler_error:
  assumes "upload w = Uploaded (Some files)" and "2 \<le> length files"
    and "writeFile_error w = None" and "ffmpeg_result w = FfError msg partial"
  shows "fs (merge_handler w s) =
     (fs s \<union> set (map path files) \<union> {concatListPath (sep w) (uploadDir w) (now_list w)}
        \<union> (if partial then {outputPath (sep w) (uploadDir w) (now_output w)} else {}))
       - set (removed_paths (remove_fails w)
           (map path files @ [concatListPath (sep w) (uploadDir w) (now_list w)]))"
  using assms
  by (simp add: handler_merging fs_run_ffmpeg_error emit_def artifacts_def staged_def
      given_concatListPath given_None)

lemma fs_handler_end:
  assumes "upload w = Uploaded (Some files)" and "2 \<le> length files"
    and "writeFile_error w = None" and "ffmpeg_result w = FfEnd"
  shows "fs (merge_handler w s) =
     (fs s \<union> set (map path files) \<union> {concatListPath (sep w) (uploadDir w) (now_list w)}
        \<union> {outputPath (sep w) (uploadDir w) (now_output w)})
       - set (removed_paths (remove_fails w)
           (map path files @ [concatListPath (sep w) (uploadDir w) (now_list w),
                              outputPath (sep w) (uploadDir w) (now_output w)]))"
  using assms
  by (simp add: handler_merging fs_run_ffmpeg_end emit_def artifacts_def staged_def
      given_concatListPath given_outputPath)

section \<open>Projections of traces\<close>

lemma responses_append: "responses (xs @ ys) = responses xs @ responses ys"
  by (simp add: responses_def)

lemma cleanup_calls_append: "cleanup_calls (xs @ ys) = cleanup_calls xs @ cleanup_calls ys"
  by (simp add: cleanup_calls_def)

lemma removal_attempts_append:
  "removal_attempts (xs @ ys) = removal_attempts xs @ removal_attempts ys"
  by (simp add: removal_attempts_def)

lemma responses_removal_events: "responses (removal_events fails ps) = []"
  by (simp add: responses_def removal_events_def filter_empty_conv)

lemma cleanup_calls_removal_events: "cleanup_calls (removal_events fails ps) = []"
  by (simp add: cleanup_calls_def removal_events_def filter_empty_conv)

lemma takeWhile_take1_dropWhile_subset:
  "set (takeWhile P ps) \<union> set (take 1 (dropWhile P ps)) \<subseteq> set ps"
  using set_takeWhileD [of _ P ps] set_dropWhileD [of _ P ps] in_set_takeD [of _ 1 "dropWhile P ps"]
  by blast

lemma removal_attempts_removal_events:
  "removal_attempts (removal_events fails ps) =
     removed_paths fails ps @ take 1 (dropWhile (\<lambda>p. \<not> fails p) ps)"
  by (simp add: removal_attempts_def removal_events_def map_concat comp_def
      concat_map_singleton)

lemma set_removal_attempts_removal_events:
  "set (removal_attempts (removal_events fails ps)) \<subseteq> set ps"
  using takeWhile_take1_dropWhile_subset [of "\<lambda>p. \<not> fails p" ps]
  by (simp add: removal_attempts_removal_events removed_paths_def)

lemma set_removed_paths: "set (removed_paths fails ps) \<subseteq> set ps"
  by (auto simp: removed_paths_def dest: set_takeWhileD)

lemma removed_paths_all: "\<forall>p \<in> set ps. \<not> fails p \<Longrightarrow> removed_paths fails ps = ps"
  by (simp add: removed_paths_def)

lemma concat_neq_output: "concatListPath sp dir a \<noteq> outputPath sp dir b"
  by (simp add: concatListPath_def outputPath_def path_join_def ofStr_def)

section \<open>Lines of the manifest\<close>

lemma split_lf_nonempty: "split_lf s \<noteq> []"
  by (induction s) (auto split: list.splits)

lemma split_lf_no_LF: "LF \<notin> set l \<Longrightarrow> split_lf l = [l]"
  by (induction l) auto

lemma split_lf_line: "LF \<notin> set l \<Longrightarrow> split_lf (l @ LF # r) = l # split_lf r"
  by (induction l) (auto split: list.splits simp: split_lf_nonempty)

lemma split_join_lf:
  "ls \<noteq> [] \<Longrightarrow> \<forall>l \<in> set ls. LF \<notin> set l \<Longrightarrow> split_lf (join_lf ls) = ls"
  by (induction ls rule: join_lf.induct) (auto simp: split_lf_no_LF split_lf_line)

lemma LF_list_entry: "LF \<notin> set (path f) \<Longrightarrow> LF \<notin> set (list_entry f)"
  by (auto simp: list_entry_def forward_slashes_def ofStr_def LF_def QUOTE_def SLASH_def
      split: if_splits)

lemma forward_slashes_no_BACKSLASH: "BACKSLASH \<notin> set (forward_slashes p)"
  by (auto simp: forward_slashes_def BACKSLASH_def SLASH_def)

lemma QUOTE_forward_slashes: "QUOTE \<in> set (forward_slashes p) \<longleftrightarrow> QUOTE \<in> set p"
  by (auto simp: forward_slashes_def BACKSLASH_def SLASH_def QUOTE_def image_iff)

lemma QUOTE_filename: "QUOTE \<notin> set (filename ts name)"
  using show_nat_no_QUOTE [of ts] safeName_in_class [of QUOTE name]
  by (auto simp: filename_def UNDERSCORE_def QUOTE_def spec_class_def)

lemma LF_filename: "LF \<notin> set (filename ts name)"
  using show_nat_no_LF [of ts] safeName_in_class [of LF name]
  by (auto simp: filename_def UNDERSCORE_def LF_def spec_class_def)

lemma trace_handler_writes:
  assumes "upload w = Uploaded (Some files)" and "2 \<le> length files"
    and "writeFile_error w = None"
  shows "\<exists>rest. trace (merge_handler w s) =
     trace s @ WriteFile (concatListPath (sep w) (uploadDir w) (now_list w)) (listContent files)
       # RunFfmpeg (concatListPath (sep w) (uploadDir w) (now_list w))
           (outputPath (sep w) (uploadDir w) (now_output w)) # rest"
proof (cases "ffmpeg_result w")
  case (FfError msg partial)
  with assms show ?thesis by (simp add: trace_handler_error)
next
  case FfEnd
  with assms show ?thesis by (simp add: trace_handler_end)
qed

lemma removal_events_all:
  "\<forall>p \<in> set ps. \<not> fails p \<Longrightarrow> removal_events fails ps = map (\<lambda>p. Remove p True) ps"
  by (induction ps) (simp_all add: removal_events_def removed_paths_def)

section \<open>Staged paths\<close>

lemma show_nat_no_BACKSLASH: "BACKSLASH \<notin> set (show_nat n)"
  using show_nat_digits [of BACKSLASH n] by (auto simp: BACKSLASH_def)

lemma BACKSLASH_filename: "BACKSLASH \<notin> set (filename ts name)"
  using show_nat_no_BACKSLASH [of ts] safeName_in_class [of BACKSLASH name]
  by (auto simp: filename_def UNDERSCORE_def BACKSLASH_def spec_class_def)

lemma path_stage: "path (stage sp dir ts name) = dir @ sp @ filename ts name"
  by (simp add: stage_def path_join_def)

lemma is_absolute_append: "is_absolute sp p \<Longrightarrow> is_absolute sp (p @ q)"
  by (auto simp: is_absolute_def split: list.splits if_splits)

lemma spec_normalize_posix: "spec_normalize [SLASH] p = p"
  by (simp add: spec_normalize_def map_idI)

lemma forward_slashes_posix: "BACKSLASH \<notin> set p \<Longrightarrow> forward_slashes p = p"
  by (induction p) (auto simp: forward_slashes_def)

lemma forward_slashes_win: "forward_slashes p = spec_normalize [BACKSLASH] p"
  by (simp add: forward_slashes_def spec_normalize_def)

lemma is_absolute_normalize_win:
  "is_absolute [BACKSLASH] p \<Longrightarrow> is_absolute [BACKSLASH] (spec_normalize [BACKSLASH] p)"
  by (auto simp: is_absolute_def spec_normalize_def BACKSLASH_def SLASH_def COLON_def
      split: list.splits if_splits)

lemma staged_normalized:
  assumes "sp = [SLASH] \<and> BACKSLASH \<notin> set dir \<or> sp = [BACKSLASH]"
  shows "forward_slashes (path (stage sp dir ts name)) = spec_normalize sp (path (stage sp dir ts name))"
  using assms
proof
  assume a: "sp = [SLASH] \<and> BACKSLASH \<notin> set dir"
  have "BACKSLASH \<noteq> SLASH" by (simp add: BACKSLASH_def SLASH_def)
  with a have "BACKSLASH \<notin> set (path (stage sp dir ts name))"
    by (simp add: path_stage BACKSLASH_filename)
  with a show ?thesis by (simp add: forward_slashes_posix spec_normalize_posix)
next
  assume "sp = [BACKSLASH]"
  then show ?thesis by (simp add: forward_slashes_win)
qed

lemma staged_absolute:
  assumes "sp = [SLASH] \<and> BACKSLASH \<notin> set dir \<or> sp = [BACKSLASH]"
    and "is_absolute sp dir"
  shows "is_absolute sp (path (stage sp dir ts name))
       \<and> is_absolute sp (spec_normalize sp (path (stage sp dir ts name)))"
proof -
  from assms(2) have a: "is_absolute sp (path (stage sp dir ts name))"
    unfolding path_stage by (rule is_absolute_append)
  from assms(1) show ?thesis
  proof
    assume "sp = [SLASH] \<and> BACKSLASH \<notin> set dir"
    with a show ?thesis by (simp add: spec_normalize_posix)
  next
    assume "sp = [BACKSLASH]"
    with a show ?thesis by (simp add: is_absolute_normalize_win)
  qed
qed

lemma LF_staged:
  assumes "sp = [SLASH] \<and> BACKSLASH \<notin> set dir \<or> sp = [BACKSLASH]" and "LF \<notin> set dir"
  shows "LF \<notin> set (path (stage sp dir ts name))"
  using assms LF_filename [of ts name]
  by (auto simp: path_stage LF_def SLASH_def BACKSLASH_def)

lemmas eval_filename =
  filename_def show_nat.simps [of "Suc 0"] digit_def safeName_def keep_class_def
  UNDERSCORE_def ofStr_def

lemma two_lines:
  assumes "length ls = length ps" and "length ps = 2"
    and "\<forall>i < length ps. ls ! i = f i \<and> Q i"
  shows "ls = [f 0, f 1]"
  using assms by (auto simp: list_eq_iff_nth_eq less_Suc_eq numeral_2_eq_2)

section \<open>The claims\<close>

text \<open>
  Claim C9. The staged name is the decimal clock reading and an underscore, followed by
  the sanitised original name. The sanitised name is what the specification describes
  (every character outside \<^verbatim>\<open>[A-Za-z0-9._-]\<close> replaced by an underscore, the
  class of the source lacking the underscore making no difference): it has the length
  of the original, holds only characters of the class, keeps every character of the
  class where it was and has an underscore wherever the original had another character.
\<close>

theorem staged_name_sanitized:
  "filename ts name = show_nat ts @ [UNDERSCORE] @ safeName name
   \<and> safeName name = spec_sanitize name
   \<and> length (safeName name) = length name
   \<and> (\<forall>c \<in> set (safeName name). spec_class c)
   \<and> (\<forall>i < length name. spec_class (name ! i) \<longrightarrow> safeName name ! i = name ! i)
   \<and> (\<forall>i < length name. \<not> spec_class (name ! i) \<longrightarrow> safeName name ! i = UNDERSCORE)"
  by (simp add: filename_def safeName_eq_spec [symmetric] length_safeName safeName_in_class
      safeName_nth)

theorem staged_name_sanitized_witness:
  "filename 7 (ofStr ''a b'') = [0x37, 0x5F, 0x61, 0x5F, 0x62]
   \<and> (1::nat) < length (ofStr ''a b'') \<and> \<not> spec_class (ofStr ''a b'' ! 1)
   \<and> safeName (ofStr ''a b'') ! 1 = UNDERSCORE
   \<and> (0::nat) < length (ofStr ''a b'') \<and> spec_class (ofStr ''a b'' ! 0)
   \<and> safeName (ofStr ''a b'') ! 0 = ofStr ''a b'' ! 0
   \<and> 0x5F \<in> set (safeName (ofStr ''a b'')) \<and> spec_class 0x5F"
  using staged_name_sanitized [of 7 "ofStr ''a b''"]
  by (simp add: ofStr_def spec_class_def spec_sanitize_def safeName_def keep_class_def
      show_nat.simps [of 7] digit_def UNDERSCORE_def)

text \<open>
  Claim C8. When the clock gives two calls different readings (the precondition on the
  prefix source), the two staged file names differ whatever the original names are, and
  so do the staged paths, the two manifest paths and the two output paths built in the
  same directory.
\<close>

theorem distinct_prefix_no_collision:
  assumes "ts1 \<noteq> ts2"
  shows "filename ts1 name1 \<noteq> filename ts2 name2
   \<and> path_join sp dir (filename ts1 name1) \<noteq> path_join sp dir (filename ts2 name2)
   \<and> concatListPath sp dir ts1 \<noteq> concatListPath sp dir ts2
   \<and> outputPath sp dir ts1 \<noteq> outputPath sp dir ts2"
  using assms filename_inj_ts [of ts1 name1 ts2 name2] show_nat_inj [of ts1 ts2]
  by (auto simp: path_join_def concatListPath_def outputPath_def)

theorem distinct_prefix_no_collision_witness:
  "(1::nat) \<noteq> 2
   \<and> filename 1 (ofStr ''a.mp4'') \<noteq> filename 2 (ofStr ''a.mp4'')
   \<and> path_join (ofStr ''/'') (ofStr ''/u'') (filename 1 (ofStr ''a.mp4''))
       \<noteq> path_join (ofStr ''/'') (ofStr ''/u'') (filename 2 (ofStr ''a.mp4''))
   \<and> concatListPath (ofStr ''/'') (ofStr ''/u'') 1 \<noteq> concatListPath (ofStr ''/'') (ofStr ''/u'') 2
   \<and> outputPath (ofStr ''/'') (ofStr ''/u'') 1 \<noteq> outputPath (ofStr ''/'') (ofStr ''/u'') 2"
  using distinct_prefix_no_collision [of 1 2 "ofStr ''a.mp4''" "ofStr ''a.mp4''" "ofStr ''/''" "ofStr ''/u''"]
  by simp

text \<open>
  Claim C5, as the code has it: for a request with at least two files (multer admits at
  most five) staged in an upload directory whose absolute path holds no line feed, the
  text written to the manifest path has exactly one line per file, in the order of
  submission, and line \<open>i\<close> is \<^verbatim>\<open>file '\<close>, the absolute path of staged file \<open>i\<close>
  with its path separators turned into forward slashes, and a closing quote. This is
  stated for a platform whose separator is the backslash, and for a platform whose
  separator is the forward slash when the upload directory has no backslash in its path.
\<close>

theorem manifest_lines:
  assumes "upload w = Uploaded (Some files)"
    and "files = map (\<lambda>(ts, name). stage (sep w) (uploadDir w) ts name) parts"
    and "2 \<le> length parts"
    and "writeFile_error w = None"
    and "sep w = [SLASH] \<and> BACKSLASH \<notin> set (uploadDir w) \<or> sep w = [BACKSLASH]"
    and "is_absolute (sep w) (uploadDir w)"
    and "LF \<notin> set (uploadDir w)"
  shows "(\<exists>rest. trace (merge_handler w s) =
            trace s @ WriteFile (concatListPath (sep w) (uploadDir w) (now_list w))
                        (listContent files) # rest)
   \<and> length (split_lf (listContent files)) = length parts
   \<and> (\<forall>i < length parts.
         split_lf (listContent files) ! i =
           ofStr ''file '' @ [QUOTE] @ spec_normalize (sep w) (path (files ! i)) @ [QUOTE]
         \<and> path (files ! i) =
             path_join (sep w) (uploadDir w) (filename (fst (parts ! i)) (snd (parts ! i)))
         \<and> is_absolute (sep w) (path (files ! i))
         \<and> is_absolute (sep w) (spec_normalize (sep w) (path (files ! i))))"
proof -
  have len: "length files = length parts" by (simp add: assms(2))
  have nth: "files ! i = stage (sep w) (uploadDir w) (fst (parts ! i)) (snd (parts ! i))"
    if "i < length parts" for i
    using that by (simp add: assms(2) case_prod_unfold)
  have mem: "\<exists>ts name. f = stage (sep w) (uploadDir w) ts name" if "f \<in> set files" for f
    using that by (auto simp: assms(2))
  from assms(3) len have ne: "map list_entry files \<noteq> []" by auto
  have "\<forall>l \<in> set (map list_entry files). LF \<notin> set l"
    using mem LF_staged [OF assms(5) assms(7)] by (fastforce simp: LF_list_entry)
  with ne have split: "split_lf (listContent files) = map list_entry files"
    unfolding listContent_def by (rule split_join_lf)
  from assms(3) len have two: "2 \<le> length files" by simp
  from trace_handler_writes [OF assms(1) two assms(4), of s] have wr:
    "\<exists>rest. trace (merge_handler w s) =
            trace s @ WriteFile (concatListPath (sep w) (uploadDir w) (now_list w))
                        (listContent files) # rest"
    by blast
  have line: "split_lf (listContent files) ! i =
           ofStr ''file '' @ [QUOTE] @ spec_normalize (sep w) (path (files ! i)) @ [QUOTE]
         \<and> path (files ! i) =
             path_join (sep w) (uploadDir w) (filename (fst (parts ! i)) (snd (parts ! i)))
         \<and> is_absolute (sep w) (path (files ! i))
         \<and> is_absolute (sep w) (spec_normalize (sep w) (path (files ! i)))"
    if "i < length parts" for i
  proof -
    from that len have "split_lf (listContent files) ! i = list_entry (files ! i)"
      by (simp add: split)
    then show ?thesis
      using staged_normalized [OF assms(5), of "fst (parts ! i)" "snd (parts ! i)"]
        staged_absolute [OF assms(5) assms(6), of "fst (parts ! i)" "snd (parts ! i)"]
      by (simp add: nth [OF that] list_entry_def) (simp add: stage_def)
  qed
  have "length (split_lf (listContent files)) = length parts"
    by (simp add: split len)
  with wr line show ?thesis by blast
qed

theorem manifest_lines_witness:
  "upload (ex_world (Uploaded (Some [ex_a, ex_b]))) = Uploaded (Some [ex_a, ex_b])
   \<and> [ex_a, ex_b] =
       map (\<lambda>(ts, name). stage (sep (ex_world (Uploaded (Some [ex_a, ex_b]))))
              (uploadDir (ex_world (Uploaded (Some [ex_a, ex_b])))) ts name)
         [(1, ofStr ''a.mp4''), (1, ofStr ''b.mp4'')]
   \<and> 2 \<le> length [(1::nat, ofStr ''a.mp4''), (1, ofStr ''b.mp4'')]
   \<and> writeFile_error (ex_world (Uploaded (Some [ex_a, ex_b]))) = None
   \<and> sep (ex_world (Uploaded (Some [ex_a, ex_b]))) = [SLASH]
   \<and> BACKSLASH \<notin> set (uploadDir (ex_world (Uploaded (Some [ex_a, ex_b]))))
   \<and> is_absolute (sep (ex_world (Uploaded (Some [ex_a, ex_b]))))
        (uploadDir (ex_world (Uploaded (Some [ex_a, ex_b]))))
   \<and> LF \<notin> set (uploadDir (ex_world (Uploaded (Some [ex_a, ex_b]))))
   \<and> split_lf (listContent [ex_a, ex_b])
       = [ofStr ''file '' @ [QUOTE] @ ofStr ''/u/1_a.mp4'' @ [QUOTE],
          ofStr ''file '' @ [QUOTE] @ ofStr ''/u/1_b.mp4'' @ [QUOTE]]
   \<and> sep ((ex_world (Uploaded (Some [ex_win_a, ex_win_b])))
             \<lparr>sep := [BACKSLASH], uploadDir := ex_win_dir\<rparr>) = [BACKSLASH]
   \<and> is_absolute [BACKSLASH] ex_win_dir
   \<and> LF \<notin> set ex_win_dir
   \<and> split_lf (listContent [ex_win_a, ex_win_b])
       = [ofStr ''file '' @ [QUOTE] @ ofStr ''C:/u/1_a.mp4'' @ [QUOTE],
          ofStr ''file '' @ [QUOTE] @ ofStr ''C:/u/1_b.mp4'' @ [QUOTE]]"
proof -
  let ?w = "ex_world (Uploaded (Some [ex_a, ex_b]))"
  let ?parts = "[(1::nat, ofStr ''a.mp4''), (1, ofStr ''b.mp4'')]"
  have f: "sep ?w = ofStr ''/''" "uploadDir ?w = ofStr ''/u''"
    by (simp_all add: ex_world_def)
  have h1: "upload ?w = Uploaded (Some [ex_a, ex_b])" by (simp add: ex_world_def)
  have h2: "[ex_a, ex_b] = map (\<lambda>(ts, name). stage (sep ?w) (uploadDir ?w) ts name) ?parts"
    unfolding f
    by (simp add: stage_def path_join_def eval_filename ex_a_def ex_b_def ofStr_def)
  have h3: "2 \<le> length ?parts" by simp
  have h4: "writeFile_error ?w = None" by (simp add: ex_world_def)
  have s: "sep ?w = [SLASH]" by (simp add: f ofStr_def SLASH_def)
  have b: "BACKSLASH \<notin> set (uploadDir ?w)" by (simp add: f ofStr_def BACKSLASH_def)
  from s b have h5: "sep ?w = [SLASH] \<and> BACKSLASH \<notin> set (uploadDir ?w) \<or> sep ?w = [BACKSLASH]"
    by simp
  have h6: "is_absolute (sep ?w) (uploadDir ?w)"
    by (simp add: f is_absolute_def ofStr_def SLASH_def BACKSLASH_def)
  have h7: "LF \<notin> set (uploadDir ?w)" by (simp add: f ofStr_def LF_def)
  note m = manifest_lines [OF h1 h2 h3 h4 h5 h6 h7, of "init {}"]
  have "split_lf (listContent [ex_a, ex_b])
       = [ofStr ''file '' @ [QUOTE] @ spec_normalize (sep ?w) (path ([ex_a, ex_b] ! 0)) @ [QUOTE],
          ofStr ''file '' @ [QUOTE] @ spec_normalize (sep ?w) (path ([ex_a, ex_b] ! 1)) @ [QUOTE]]"
    by (rule two_lines [OF m [THEN conjunct2, THEN conjunct1] _ m [THEN conjunct2, THEN conjunct2]])
      simp
  then have posix: "split_lf (listContent [ex_a, ex_b])
       = [ofStr ''file '' @ [QUOTE] @ ofStr ''/u/1_a.mp4'' @ [QUOTE],
          ofStr ''file '' @ [QUOTE] @ ofStr ''/u/1_b.mp4'' @ [QUOTE]]"
    unfolding s spec_normalize_posix by (simp add: ex_a_def ex_b_def)
  let ?v = "(ex_world (Uploaded (Some [ex_win_a, ex_win_b])))
              \<lparr>sep := [BACKSLASH], uploadDir := ex_win_dir\<rparr>"
  have g: "sep ?v = [BACKSLASH]" "uploadDir ?v = ex_win_dir"
    by (simp_all add: ex_world_def)
  have w1: "upload ?v = Uploaded (Some [ex_win_a, ex_win_b])" by (simp add: ex_world_def)
  have w2: "[ex_win_a, ex_win_b] = map (\<lambda>(ts, name). stage (sep ?v) (uploadDir ?v) ts name) ?parts"
    unfolding g by (simp add: ex_win_a_def ex_win_b_def)
  have w4: "writeFile_error ?v = None" by (simp add: ex_world_def)
  have w5: "sep ?v = [SLASH] \<and> BACKSLASH \<notin> set (uploadDir ?v) \<or> sep ?v = [BACKSLASH]"
    by (simp add: g)
  have w6: "is_absolute [BACKSLASH] ex_win_dir"
    by (simp add: is_absolute_def ex_win_dir_def ofStr_def SLASH_def BACKSLASH_def COLON_def)
  have w7: "LF \<notin> set ex_win_dir"
    by (simp add: ex_win_dir_def ofStr_def LF_def BACKSLASH_def)
  have w6': "is_absolute (sep ?v) (uploadDir ?v)" unfolding g by (rule w6)
  have w7': "LF \<notin> set (uploadDir ?v)" unfolding g by (rule w7)
  note n = manifest_lines [OF w1 w2 h3 w4 w5 w6' w7', of "init {}"]
  have "split_lf (listContent [ex_win_a, ex_win_b])
       = [ofStr ''file '' @ [QUOTE]
            @ spec_normalize (sep ?v) (path ([ex_win_a, ex_win_b] ! 0)) @ [QUOTE],
          ofStr ''file '' @ [QUOTE]
            @ spec_normalize (sep ?v) (path ([ex_win_a, ex_win_b] ! 1)) @ [QUOTE]]"
    by (rule two_lines [OF n [THEN conjunct2, THEN conjunct1] _ n [THEN conjunct2, THEN conjunct2]])
      simp
  then have win: "split_lf (listContent [ex_win_a, ex_win_b])
       = [ofStr ''file '' @ [QUOTE] @ ofStr ''C:/u/1_a.mp4'' @ [QUOTE],
          ofStr ''file '' @ [QUOTE] @ ofStr ''C:/u/1_b.mp4'' @ [QUOTE]]"
    unfolding g
    by (simp add: spec_normalize_def ex_win_a_def ex_win_b_def path_stage ex_win_dir_def
        eval_filename BACKSLASH_def SLASH_def)
  from h1 h2 h3 h4 s b h6 h7 posix g(1) w6 w7 win show ?thesis by (intro conjI)
qed

text \<open>
  Against claim C5 as stated: the upload directory has a line feed in its path, both
  files of the request are staged there, and the manifest written for the two files has
  four lines.
\<close>

theorem manifest_with_line_feed_in_upload_dir:
  "length [ex_lf_a, ex_lf_b] = 2
   \<and> path ex_lf_a = ofStr ''/u'' @ [LF] @ ofStr ''x/1_a.mp4''
   \<and> path ex_lf_b = ofStr ''/u'' @ [LF] @ ofStr ''x/1_b.mp4''
   \<and> hd (trace (merge_handler
         ((ex_world (Uploaded (Some [ex_lf_a, ex_lf_b])))\<lparr>uploadDir := ex_lf_dir\<rparr>) (init {})))
       = WriteFile (concatListPath (ofStr ''/'') ex_lf_dir 2) (listContent [ex_lf_a, ex_lf_b])
   \<and> split_lf (listContent [ex_lf_a, ex_lf_b]) =
       [ofStr ''file '' @ [QUOTE] @ ofStr ''/u'',
        ofStr ''x/1_a.mp4'' @ [QUOTE],
        ofStr ''file '' @ [QUOTE] @ ofStr ''/u'',
        ofStr ''x/1_b.mp4'' @ [QUOTE]]
   \<and> length (split_lf (listContent [ex_lf_a, ex_lf_b])) = 4"
proof -
  let ?w = "(ex_world (Uploaded (Some [ex_lf_a, ex_lf_b])))\<lparr>uploadDir := ex_lf_dir\<rparr>"
  have pa: "path ex_lf_a = ofStr ''/u'' @ [LF] @ ofStr ''x/1_a.mp4''"
    by (simp add: ex_lf_a_def path_stage ex_lf_dir_def eval_filename ofStr_def)
  have pb: "path ex_lf_b = ofStr ''/u'' @ [LF] @ ofStr ''x/1_b.mp4''"
    by (simp add: ex_lf_b_def path_stage ex_lf_dir_def eval_filename ofStr_def)
  have h: "upload ?w = Uploaded (Some [ex_lf_a, ex_lf_b])" "2 \<le> length [ex_lf_a, ex_lf_b]"
    "writeFile_error ?w = None"
    by (simp_all add: ex_world_def)
  have f: "sep ?w = ofStr ''/''" "uploadDir ?w = ex_lf_dir" "now_list ?w = 2"
    by (simp_all add: ex_world_def)
  have t: "trace (init {}) = []" by (simp add: init_def)
  from trace_handler_writes [OF h, of "init {}"]
  have hd: "hd (trace (merge_handler ?w (init {})))
       = WriteFile (concatListPath (ofStr ''/'') ex_lf_dir 2) (listContent [ex_lf_a, ex_lf_b])"
    unfolding f t by auto
  have sp: "split_lf (listContent [ex_lf_a, ex_lf_b]) =
       [ofStr ''file '' @ [QUOTE] @ ofStr ''/u'',
        ofStr ''x/1_a.mp4'' @ [QUOTE],
        ofStr ''file '' @ [QUOTE] @ ofStr ''/u'',
        ofStr ''x/1_b.mp4'' @ [QUOTE]]"
    by (simp add: listContent_def list_entry_def forward_slashes_def pa pb
        ofStr_def QUOTE_def LF_def BACKSLASH_def)
  then have "length (split_lf (listContent [ex_lf_a, ex_lf_b])) = 4" by simp
  with pa pb hd sp show ?thesis by simp
qed

text \<open>
  Claim C1 (cleanup exactly once on every exit path, no file of the job left). The
  handler does not do this on the validation path: for a request with a single file it
  answers without calling \<^verbatim>\<open>cleanup\<close> and without attempting any removal, and the
  staged file is still in the working directory afterwards.
\<close>

theorem single_file_request_never_cleaned:
  "cleanup_calls (trace (merge_handler (ex_world (Uploaded (Some [ex_a]))) (init {}))) = []
   \<and> removal_attempts (trace (merge_handler (ex_world (Uploaded (Some [ex_a]))) (init {}))) = []
   \<and> fs (merge_handler (ex_world (Uploaded (Some [ex_a]))) (init {})) = {path ex_a}"
  by (simp add: merge_handler_def ex_world_def emit_def staged_def init_def cleanup_calls_def
      removal_attempts_def)

text \<open>
  Claim C3, as the code has it: a request with fewer than two files is answered with
  status 400 and a JSON body whose only field is \<^verbatim>\<open>error\<close>, holding the fixed
  text \<^verbatim>\<open>Please upload at least 2 videos to merge\<close>.
\<close>

theorem too_few_files_answer:
  assumes "upload w = Uploaded (Some files)" and "length files < 2"
  shows "responses (trace (merge_handler w s)) =
     responses (trace s)
       @ [RespondJson 400 [(''error'', ofStr ''Please upload at least 2 videos to merge'')]]"
  using assms by (simp add: handler_too_few emit_def staged_def responses_def)

theorem too_few_files_answer_witness:
  "upload (ex_world (Uploaded (Some [ex_b]))) = Uploaded (Some [ex_b])
   \<and> length [ex_b] < 2
   \<and> responses (trace (merge_handler (ex_world (Uploaded (Some [ex_b]))) (init {})))
       = [RespondJson 400 [(''error'', ofStr ''Please upload at least 2 videos to merge'')]]"
proof -
  have h: "upload (ex_world (Uploaded (Some [ex_b]))) = Uploaded (Some [ex_b])"
    "length [ex_b] < 2"
    by (simp_all add: ex_world_def)
  from too_few_files_answer [OF h, of "init {}"] h show ?thesis
    by (simp add: init_def responses_def)
qed

text \<open>
  Against claim C3 as stated: for a request with one file the answer has no
  \<^verbatim>\<open>details\<close> field, and the staged file is still there when the handler is done.
\<close>

theorem single_file_answer_has_no_details:
  "trace (merge_handler (ex_world (Uploaded (Some [ex_a]))) (init {}))
     = [RespondJson 400 [(''error'', ofStr ''Please upload at least 2 videos to merge'')]]
   \<and> details_of (RespondJson 400 [(''error'', ofStr ''Please upload at least 2 videos to merge'')])
       = None
   \<and> path ex_a \<in> fs (merge_handler (ex_world (Uploaded (Some [ex_a]))) (init {}))"
  by (simp add: merge_handler_def ex_world_def emit_def staged_def init_def details_of_def)

text \<open>
  Claim C10. When \<^verbatim>\<open>req.files\<close> is absent, the handler does nothing but answer with
  status 400 and the \<^verbatim>\<open>error\<close> text of the validation branch: the same answer as for
  any request whose file list is shorter than two.
\<close>

theorem absent_files_answer:
  assumes "upload w = Uploaded None" and "length files < 2"
  shows "trace (merge_handler w s) =
     trace s @ [RespondJson 400 [(''error'', ofStr ''Please upload at least 2 videos to merge'')]]
   \<and> responses (trace (merge_handler w s)) =
       responses (trace (merge_handler (w\<lparr>upload := Uploaded (Some files)\<rparr>) s))"
  using assms by (simp add: handler_no_files handler_too_few emit_def staged_def)

theorem absent_files_answer_witness:
  "upload (ex_world (Uploaded None)) = Uploaded None
   \<and> length [ex_a] < 2
   \<and> trace (merge_handler (ex_world (Uploaded None)) (init {}))
       = [RespondJson 400 [(''error'', ofStr ''Please upload at least 2 videos to merge'')]]
   \<and> responses (trace (merge_handler (ex_world (Uploaded None)) (init {})))
       = responses (trace (merge_handler
           ((ex_world (Uploaded None))\<lparr>upload := Uploaded (Some [ex_a])\<rparr>) (init {})))"
proof -
  have h: "upload (ex_world (Uploaded None)) = Uploaded None" "length [ex_a] < 2"
    by (simp_all add: ex_world_def)
  have t: "trace (init {}) = []" by (simp add: init_def)
  note r = absent_files_answer [OF h, of "init {}", unfolded t append_Nil]
  with h show ?thesis by blast
qed

text \<open>
  Claim C6, as the code has it: \<^verbatim>\<open>cleanup\<close> always returns normally; it goes through
  the artifacts in order (uploaded files, list file, merged file) and stops at the first
  removal that fails, so the artifacts before it are removed and those after it are not
  attempted; calling it a second time changes nothing; and when no removal fails, no
  artifact is left.
\<close>

theorem cleanup_in_order_until_failure:
  "fst (cleanup fails files listFile mergedFile s) = Returned
   \<and> removal_attempts (trace (snd (cleanup fails files listFile mergedFile s))) =
       removal_attempts (trace s) @ removed_paths fails (artifacts files listFile mergedFile)
         @ take 1 (dropWhile (\<lambda>p. \<not> fails p) (artifacts files listFile mergedFile))
   \<and> fs (snd (cleanup fails files listFile mergedFile s)) =
       fs s - set (removed_paths fails (artifacts files listFile mergedFile))
   \<and> fs (snd (cleanup fails files listFile mergedFile
              (snd (cleanup fails files listFile mergedFile s)))) =
       fs (snd (cleanup fails files listFile mergedFile s))
   \<and> ((\<forall>p \<in> set (artifacts files listFile mergedFile). \<not> fails p) \<longrightarrow>
        fs (snd (cleanup fails files listFile mergedFile s))
          \<inter> set (artifacts files listFile mergedFile) = {})"
proof -
  have "\<And>es. removal_attempts (CleanupCall files listFile mergedFile # es) = removal_attempts es"
    by (simp add: removal_attempts_def)
  then have "removal_attempts (trace (snd (cleanup fails files listFile mergedFile s))) =
       removal_attempts (trace s) @ removed_paths fails (artifacts files listFile mergedFile)
         @ take 1 (dropWhile (\<lambda>p. \<not> fails p) (artifacts files listFile mergedFile))"
    by (simp add: trace_cleanup removal_attempts_append removal_attempts_removal_events)
  moreover have "fs (snd (cleanup fails files listFile mergedFile
              (snd (cleanup fails files listFile mergedFile s)))) =
       fs (snd (cleanup fails files listFile mergedFile s))"
    by (auto simp: fs_cleanup)
  moreover have "(\<forall>p \<in> set (artifacts files listFile mergedFile). \<not> fails p) \<longrightarrow>
        fs (snd (cleanup fails files listFile mergedFile s))
          \<inter> set (artifacts files listFile mergedFile) = {}"
    by (auto simp: fs_cleanup removed_paths_all)
  ultimately show ?thesis
    by (simp add: cleanup_returns fs_cleanup)
qed

theorem cleanup_in_order_until_failure_witness:
  "\<not> ex_refuse_none (path ex_a) \<and> \<not> ex_refuse_none (path ex_b)
   \<and> fs (snd (cleanup ex_refuse_none [ex_a, ex_b] None None (init {path ex_a, path ex_b}))) = {}
   \<and> fst (cleanup ex_refuse_none [ex_a, ex_b] None None (init {path ex_a, path ex_b})) = Returned"
proof -
  have a: "artifacts [ex_a, ex_b] None None = [path ex_a, path ex_b]"
    by (simp add: artifacts_def given_def)
  have h: "\<forall>p \<in> set (artifacts [ex_a, ex_b] None None). \<not> ex_refuse_none p"
    by (simp add: ex_refuse_none_def)
  from cleanup_in_order_until_failure
    [of ex_refuse_none "[ex_a, ex_b]" None None "init {path ex_a, path ex_b}"] h
  have "fst (cleanup ex_refuse_none [ex_a, ex_b] None None (init {path ex_a, path ex_b})) = Returned"
    and "fs (snd (cleanup ex_refuse_none [ex_a, ex_b] None None (init {path ex_a, path ex_b})))
           = fs (init {path ex_a, path ex_b}) - set (removed_paths ex_refuse_none (artifacts [ex_a, ex_b] None None))"
    by blast+
  then show ?thesis
    by (simp add: a removed_paths_def ex_refuse_none_def init_def)
qed

text \<open>
  Against claim C6 as stated: when the removal of the first uploaded file fails, the
  removal of the second one is not attempted and the second file stays.
\<close>

theorem cleanup_stops_at_first_failure:
  "removal_attempts (trace (snd (cleanup ex_refuse_a [ex_a, ex_b] None None
       (init {path ex_a, path ex_b})))) = [path ex_a]
   \<and> path ex_b \<in> fs (snd (cleanup ex_refuse_a [ex_a, ex_b] None None
       (init {path ex_a, path ex_b})))"
  by (simp add: cleanup_def cleanup_try_def fs_remove_def emit_def init_def ex_refuse_a_def
      removal_attempts_def)

text \<open>
  Claim C7. When the merge succeeds, the handler's actions are, in this order: the
  manifest is written, the tool runs, the output file is sent as a download named
  \<^verbatim>\<open>merged.mp4\<close> (the only answer of the request), and only then, in the callback
  that the download invokes when the transfer is complete or has failed, \<^verbatim>\<open>cleanup\<close>
  is called and the removals happen. The listener that starts the download runs in a
  state where the output file exists and the handler has removed nothing yet.
\<close>

theorem download_before_cleanup:
  assumes "upload w = Uploaded (Some files)" and "2 \<le> length files"
    and "writeFile_error w = None" and "ffmpeg_result w = FfEnd"
  shows "trace (merge_handler w s) =
     trace s @ [WriteFile (concatListPath (sep w) (uploadDir w) (now_list w)) (listContent files),
                RunFfmpeg (concatListPath (sep w) (uploadDir w) (now_list w))
                  (outputPath (sep w) (uploadDir w) (now_output w)),
                RespondDownload (outputPath (sep w) (uploadDir w) (now_output w))
                  (ofStr ''merged.mp4'') (sendErr w),
                CleanupCall files (Some (concatListPath (sep w) (uploadDir w) (now_list w)))
                  (Some (outputPath (sep w) (uploadDir w) (now_output w)))]
       @ removal_events (remove_fails w)
           (map path files @ [concatListPath (sep w) (uploadDir w) (now_list w),
                              outputPath (sep w) (uploadDir w) (now_output w)])
   \<and> responses (trace (merge_handler w s)) =
       responses (trace s)
         @ [RespondDownload (outputPath (sep w) (uploadDir w) (now_output w))
              (ofStr ''merged.mp4'') (sendErr w)]
   \<and> (\<exists>s'. merge_handler w s =
              on_end w files (concatListPath (sep w) (uploadDir w) (now_list w))
                (outputPath (sep w) (uploadDir w) (now_output w)) s'
            \<and> outputPath (sep w) (uploadDir w) (now_output w) \<in> fs s'
            \<and> removal_attempts (trace s') = removal_attempts (trace s))"
proof -
  let ?lp = "concatListPath (sep w) (uploadDir w) (now_list w)"
  let ?out = "outputPath (sep w) (uploadDir w) (now_output w)"
  let ?s1 = "emit (WriteFile ?lp (listContent files))
               ((staged files s)\<lparr>fs := fs (staged files s) \<union> {?lp}\<rparr>)"
  let ?s2 = "emit (RunFfmpeg ?lp ?out) ?s1"
  let ?s' = "?s2\<lparr>fs := fs ?s2 \<union> {?out}\<rparr>"
  have "merge_handler w s = on_end w files ?lp ?out ?s'"
    using assms by (simp add: handler_merging run_ffmpeg_def Let_def)
  moreover have "?out \<in> fs ?s'" by simp
  moreover have "removal_attempts (trace ?s') = removal_attempts (trace s)"
    by (simp add: emit_def staged_def removal_attempts_def)
  ultimately have third: "\<exists>s'. merge_handler w s = on_end w files ?lp ?out s'
      \<and> ?out \<in> fs s' \<and> removal_attempts (trace s') = removal_attempts (trace s)"
    by blast
  have tr: "trace (merge_handler w s) =
     trace s @ [WriteFile ?lp (listContent files), RunFfmpeg ?lp ?out,
                RespondDownload ?out (ofStr ''merged.mp4'') (sendErr w),
                CleanupCall files (Some ?lp) (Some ?out)]
       @ removal_events (remove_fails w) (map path files @ [?lp, ?out])"
    using assms by (rule trace_handler_end)
  have "responses (trace (merge_handler w s)) =
       responses (trace s) @ [RespondDownload ?out (ofStr ''merged.mp4'') (sendErr w)]"
    unfolding tr responses_append responses_removal_events
    by (simp add: responses_def)
  with tr third show ?thesis by blast
qed

theorem download_before_cleanup_witness:
  "upload (ex_world (Uploaded (Some [ex_a, ex_b]))) = Uploaded (Some [ex_a, ex_b])
   \<and> 2 \<le> length [ex_a, ex_b]
   \<and> writeFile_error (ex_world (Uploaded (Some [ex_a, ex_b]))) = None
   \<and> ffmpeg_result (ex_world (Uploaded (Some [ex_a, ex_b]))) = FfEnd
   \<and> trace (merge_handler (ex_world (Uploaded (Some [ex_a, ex_b]))) (init {})) =
       [WriteFile (concatListPath (ofStr ''/'') (ofStr ''/u'') 2) (listContent [ex_a, ex_b]),
        RunFfmpeg (concatListPath (ofStr ''/'') (ofStr ''/u'') 2)
          (outputPath (ofStr ''/'') (ofStr ''/u'') 3),
        RespondDownload (outputPath (ofStr ''/'') (ofStr ''/u'') 3) (ofStr ''merged.mp4'') None,
        CleanupCall [ex_a, ex_b] (Some (concatListPath (ofStr ''/'') (ofStr ''/u'') 2))
          (Some (outputPath (ofStr ''/'') (ofStr ''/u'') 3)),
        Remove (path ex_a) True, Remove (path ex_b) True,
        Remove (concatListPath (ofStr ''/'') (ofStr ''/u'') 2) True,
        Remove (outputPath (ofStr ''/'') (ofStr ''/u'') 3) True]"
proof -
  have h: "upload (ex_world (Uploaded (Some [ex_a, ex_b]))) = Uploaded (Some [ex_a, ex_b])"
    "2 \<le> length [ex_a, ex_b]"
    "writeFile_error (ex_world (Uploaded (Some [ex_a, ex_b]))) = None"
    "ffmpeg_result (ex_world (Uploaded (Some [ex_a, ex_b]))) = FfEnd"
    by (simp_all add: ex_world_def)
  have t: "trace (init {}) = []" by (simp add: init_def)
  have f: "sep (ex_world (Uploaded (Some [ex_a, ex_b]))) = ofStr ''/''"
    "uploadDir (ex_world (Uploaded (Some [ex_a, ex_b]))) = ofStr ''/u''"
    "now_list (ex_world (Uploaded (Some [ex_a, ex_b]))) = 2"
    "now_output (ex_world (Uploaded (Some [ex_a, ex_b]))) = 3"
    "sendErr (ex_world (Uploaded (Some [ex_a, ex_b]))) = None"
    "remove_fails (ex_world (Uploaded (Some [ex_a, ex_b]))) = (\<lambda>p. False)"
    by (simp_all add: ex_world_def)
  have r: "\<And>ps. removal_events (\<lambda>p. False) ps = map (\<lambda>p. Remove p True) ps"
    by (simp add: removal_events_all)
  note d = download_before_cleanup [OF h, of "init {}", unfolded t f r append_Nil, THEN conjunct1]
  with h show ?thesis by simp
qed

text \<open>
  Claim C4, as the code has it: when the tool fails, the only answer is status 500 with
  the tool's message in \<^verbatim>\<open>details\<close>; \<^verbatim>\<open>cleanup\<close> is called once, for the
  uploaded files and the manifest and with no output path, so no removal other than of
  those paths is attempted: a partly written output file stays in the working directory
  (unless its path is that of an uploaded file), while the uploaded files and the
  manifest are gone when no removal fails.
\<close>

theorem merge_failure_answer_and_cleanup:
  assumes "upload w = Uploaded (Some files)" and "2 \<le> length files"
    and "writeFile_error w = None" and "ffmpeg_result w = FfError msg partial"
  shows "responses (trace (merge_handler w s)) =
       responses (trace s)
         @ [RespondJson 500 [(''error'', ofStr ''Video merge failed''), (''details'', msg)]]
   \<and> cleanup_calls (trace (merge_handler w s)) =
       cleanup_calls (trace s)
         @ [CleanupCall files (Some (concatListPath (sep w) (uploadDir w) (now_list w))) None]
   \<and> set (removal_attempts (trace (merge_handler w s)))
       \<subseteq> set (removal_attempts (trace s)) \<union> path ` set files
           \<union> {concatListPath (sep w) (uploadDir w) (now_list w)}
   \<and> (partial \<longrightarrow> outputPath (sep w) (uploadDir w) (now_output w) \<notin> path ` set files \<longrightarrow>
        outputPath (sep w) (uploadDir w) (now_output w) \<in> fs (merge_handler w s))
   \<and> ((\<forall>p. \<not> remove_fails w p) \<longrightarrow>
        fs (merge_handler w s)
          \<inter> (path ` set files \<union> {concatListPath (sep w) (uploadDir w) (now_list w)}) = {})"
proof -
  let ?lp = "concatListPath (sep w) (uploadDir w) (now_list w)"
  let ?out = "outputPath (sep w) (uploadDir w) (now_output w)"
  note tr = trace_handler_error [OF assms, of s]
  note fs = fs_handler_error [OF assms, of s]
  have a: "responses (trace (merge_handler w s)) =
       responses (trace s)
         @ [RespondJson 500 [(''error'', ofStr ''Video merge failed''), (''details'', msg)]]"
    unfolding tr responses_append responses_removal_events by (simp add: responses_def)
  have b: "cleanup_calls (trace (merge_handler w s)) =
       cleanup_calls (trace s) @ [CleanupCall files (Some ?lp) None]"
    unfolding tr cleanup_calls_append cleanup_calls_removal_events
    by (simp add: cleanup_calls_def)
  have "removal_attempts (trace (merge_handler w s)) =
      removal_attempts (trace s)
        @ removal_attempts (removal_events (remove_fails w) (map path files @ [?lp]))"
    unfolding tr removal_attempts_append by (simp add: removal_attempts_def)
  then have c: "set (removal_attempts (trace (merge_handler w s)))
       \<subseteq> set (removal_attempts (trace s)) \<union> path ` set files \<union> {?lp}"
    using set_removal_attempts_removal_events [of "remove_fails w" "map path files @ [?lp]"]
    by auto
  have d: "partial \<longrightarrow> ?out \<notin> path ` set files \<longrightarrow> ?out \<in> fs (merge_handler w s)"
    unfolding fs
    using set_removed_paths [of "remove_fails w" "map path files @ [?lp]"]
      concat_neq_output [of "sep w" "uploadDir w" "now_list w" "now_output w"]
    by auto
  have e: "(\<forall>p. \<not> remove_fails w p) \<longrightarrow>
        fs (merge_handler w s) \<inter> (path ` set files \<union> {?lp}) = {}"
    unfolding fs by (auto simp: removed_paths_def)
  from a b c d e show ?thesis by blast
qed

theorem merge_failure_answer_and_cleanup_witness:
  "upload ((ex_world (Uploaded (Some [ex_a, ex_b])))\<lparr>ffmpeg_result := FfError (ofStr ''boom'') True\<rparr>)
     = Uploaded (Some [ex_a, ex_b])
   \<and> 2 \<le> length [ex_a, ex_b]
   \<and> writeFile_error ((ex_world (Uploaded (Some [ex_a, ex_b])))\<lparr>ffmpeg_result := FfError (ofStr ''boom'') True\<rparr>)
       = None
   \<and> ffmpeg_result ((ex_world (Uploaded (Some [ex_a, ex_b])))\<lparr>ffmpeg_result := FfError (ofStr ''boom'') True\<rparr>)
       = FfError (ofStr ''boom'') True
   \<and> outputPath (ofStr ''/'') (ofStr ''/u'') 3 \<noteq> path ex_a
   \<and> outputPath (ofStr ''/'') (ofStr ''/u'') 3 \<noteq> path ex_b
   \<and> responses (trace (merge_handler
         ((ex_world (Uploaded (Some [ex_a, ex_b])))\<lparr>ffmpeg_result := FfError (ofStr ''boom'') True\<rparr>)
         (init {})))
       = [RespondJson 500 [(''error'', ofStr ''Video merge failed''), (''details'', ofStr ''boom'')]]
   \<and> cleanup_calls (trace (merge_handler
         ((ex_world (Uploaded (Some [ex_a, ex_b])))\<lparr>ffmpeg_result := FfError (ofStr ''boom'') True\<rparr>)
         (init {})))
       = [CleanupCall [ex_a, ex_b] (Some (concatListPath (ofStr ''/'') (ofStr ''/u'') 2)) None]
   \<and> path ex_a \<notin> fs (merge_handler
         ((ex_world (Uploaded (Some [ex_a, ex_b])))\<lparr>ffmpeg_result := FfError (ofStr ''boom'') True\<rparr>)
         (init {}))
   \<and> outputPath (ofStr ''/'') (ofStr ''/u'') 3 \<in> fs (merge_handler
         ((ex_world (Uploaded (Some [ex_a, ex_b])))\<lparr>ffmpeg_result := FfError (ofStr ''boom'') True\<rparr>)
         (init {}))"
proof -
  let ?w = "(ex_world (Uploaded (Some [ex_a, ex_b])))\<lparr>ffmpeg_result := FfError (ofStr ''boom'') True\<rparr>"
  have h: "upload ?w = Uploaded (Some [ex_a, ex_b])" "2 \<le> length [ex_a, ex_b]"
    "writeFile_error ?w = None" "ffmpeg_result ?w = FfError (ofStr ''boom'') True"
    by (simp_all add: ex_world_def)
  have f: "sep ?w = ofStr ''/''" "uploadDir ?w = ofStr ''/u''" "now_list ?w = 2"
    "now_output ?w = 3"
    by (simp_all add: ex_world_def)
  have r: "\<forall>p. \<not> remove_fails ?w p" by (simp add: ex_world_def)
  have n: "outputPath (ofStr ''/'') (ofStr ''/u'') 3 \<noteq> path ex_a"
    "outputPath (ofStr ''/'') (ofStr ''/u'') 3 \<noteq> path ex_b"
    by (simp_all add: outputPath_def path_join_def ofStr_def ex_a_def ex_b_def)
  have t: "responses (trace (init {})) = []" "cleanup_calls (trace (init {})) = []"
    by (simp_all add: init_def responses_def cleanup_calls_def)
  note m = merge_failure_answer_and_cleanup [OF h, of "init {}", unfolded f t append_Nil]
  from m have "responses (trace (merge_handler ?w (init {})))
       = [RespondJson 500 [(''error'', ofStr ''Video merge failed''), (''details'', ofStr ''boom'')]]"
    and "cleanup_calls (trace (merge_handler ?w (init {})))
       = [CleanupCall [ex_a, ex_b] (Some (concatListPath (ofStr ''/'') (ofStr ''/u'') 2)) None]"
    by blast+
  moreover from m r have "path ex_a \<notin> fs (merge_handler ?w (init {}))"
    by auto
  moreover from m n have "outputPath (ofStr ''/'') (ofStr ''/u'') 3 \<in> fs (merge_handler ?w (init {}))"
    by auto
  ultimately show ?thesis using h n by blast
qed

text \<open>
  Against claim C4 as stated: the tool fails after it has created the output file, and
  the output file is still in the working directory when the handler is done.
\<close>

theorem failed_merge_leaves_partial_output:
  "outputPath (ofStr ''/'') (ofStr ''/u'') 3
     \<in> fs (merge_handler ((ex_world (Uploaded (Some [ex_a, ex_b])))
              \<lparr>ffmpeg_result := FfError (ofStr ''boom'') True\<rparr>) (init {}))"
proof -
  let ?w = "(ex_world (Uploaded (Some [ex_a, ex_b])))\<lparr>ffmpeg_result := FfError (ofStr ''boom'') True\<rparr>"
  have h: "upload ?w = Uploaded (Some [ex_a, ex_b])" "2 \<le> length [ex_a, ex_b]"
    "writeFile_error ?w = None" "ffmpeg_result ?w = FfError (ofStr ''boom'') True"
    by (simp_all add: ex_world_def)
  have f: "sep ?w = ofStr ''/''" "uploadDir ?w = ofStr ''/u''" "now_list ?w = 2"
    "now_output ?w = 3" "remove_fails ?w = (\<lambda>p. False)"
    by (simp_all add: ex_world_def)
  have n: "outputPath (ofStr ''/'') (ofStr ''/u'') 3 \<noteq> path ex_a"
    "outputPath (ofStr ''/'') (ofStr ''/u'') 3 \<noteq> path ex_b"
    by (simp_all add: outputPath_def path_join_def ofStr_def ex_a_def ex_b_def)
  show ?thesis
    unfolding fs_handler_error [OF h] f
    using n concat_neq_output [of "ofStr ''/''" "ofStr ''/u''" 2 3]
    by (auto simp: removed_paths_def)
qed

text \<open>
  Claim C2, as the code has it: the manifest builder rejects no path. For every request
  with at least two staged files whose manifest can be written, the manifest is
  written, each path between single quotes with its backslashes turned into slashes
  and a single quote inside it left as it is, and the merge tool is run on it. Only
  the file name that staging generates is free of single quotes.
\<close>

theorem manifest_written_for_any_path:
  assumes "upload w = Uploaded (Some files)" and "2 \<le> length files"
    and "writeFile_error w = None"
  shows "(\<exists>rest. trace (merge_handler w s) =
            trace s @ WriteFile (concatListPath (sep w) (uploadDir w) (now_list w))
                        (listContent files)
              # RunFfmpeg (concatListPath (sep w) (uploadDir w) (now_list w))
                  (outputPath (sep w) (uploadDir w) (now_output w)) # rest)
   \<and> listContent files =
       join_lf (map (\<lambda>f. ofStr ''file '' @ [QUOTE] @ forward_slashes (path f) @ [QUOTE]) files)
   \<and> (\<forall>f \<in> set files. QUOTE \<in> set (path f) \<longrightarrow> QUOTE \<in> set (forward_slashes (path f)))
   \<and> QUOTE \<notin> set (filename ts name)"
proof -
  have "listContent files =
       join_lf (map (\<lambda>f. ofStr ''file '' @ [QUOTE] @ forward_slashes (path f) @ [QUOTE]) files)"
    unfolding listContent_def by (rule arg_cong [where f = join_lf]) (simp add: list_entry_def)
  with trace_handler_writes [OF assms, of s] show ?thesis
    by (simp add: QUOTE_forward_slashes QUOTE_filename)
qed

theorem manifest_written_for_any_path_witness:
  "upload ((ex_world (Uploaded (Some [ex_qa, ex_qb])))\<lparr>uploadDir := ex_quoted_dir\<rparr>)
     = Uploaded (Some [ex_qa, ex_qb])
   \<and> 2 \<le> length [ex_qa, ex_qb]
   \<and> writeFile_error ((ex_world (Uploaded (Some [ex_qa, ex_qb])))\<lparr>uploadDir := ex_quoted_dir\<rparr>) = None
   \<and> QUOTE \<in> set (path ex_qa)
   \<and> QUOTE \<in> set (forward_slashes (path ex_qa))
   \<and> QUOTE \<notin> set (filename 1 (ofStr ''a.mp4''))"
proof -
  let ?w = "(ex_world (Uploaded (Some [ex_qa, ex_qb])))\<lparr>uploadDir := ex_quoted_dir\<rparr>"
  have h: "upload ?w = Uploaded (Some [ex_qa, ex_qb])" "2 \<le> length [ex_qa, ex_qb]"
    "writeFile_error ?w = None"
    by (simp_all add: ex_world_def)
  have q: "QUOTE \<in> set (path ex_qa)"
    by (simp add: ex_qa_def ex_quoted_dir_def)
  from manifest_written_for_any_path [OF h, of "init {}" 1 "ofStr ''a.mp4''"] q
  have "QUOTE \<in> set (forward_slashes (path ex_qa))"
    and "QUOTE \<notin> set (filename 1 (ofStr ''a.mp4''))"
    by simp_all
  with h q show ?thesis by blast
qed

text \<open>
  Against claim C2 as stated: with the upload directory \<^verbatim>\<open>/o'b/u\<close> the staged paths
  hold a single quote; the manifest is written with the quote unescaped, the tool is
  run on it and the merged file is sent.
\<close>

theorem quoted_path_is_written_and_merged:
  "QUOTE \<in> set (path ex_qa)
   \<and> trace (merge_handler
         ((ex_world (Uploaded (Some [ex_qa, ex_qb])))\<lparr>uploadDir := ex_quoted_dir\<rparr>) (init {})) =
       [WriteFile (concatListPath (ofStr ''/'') ex_quoted_dir 2) (listContent [ex_qa, ex_qb]),
        RunFfmpeg (concatListPath (ofStr ''/'') ex_quoted_dir 2)
          (outputPath (ofStr ''/'') ex_quoted_dir 3),
        RespondDownload (outputPath (ofStr ''/'') ex_quoted_dir 3) (ofStr ''merged.mp4'') None,
        CleanupCall [ex_qa, ex_qb] (Some (concatListPath (ofStr ''/'') ex_quoted_dir 2))
          (Some (outputPath (ofStr ''/'') ex_quoted_dir 3)),
        Remove (path ex_qa) True, Remove (path ex_qb) True,
        Remove (concatListPath (ofStr ''/'') ex_quoted_dir 2) True,
        Remove (outputPath (ofStr ''/'') ex_quoted_dir 3) True]
   \<and> listContent [ex_qa, ex_qb] =
       ofStr ''file '' @ [QUOTE] @ ofStr ''/o'' @ [QUOTE] @ ofStr ''b/u/1_a.mp4'' @ [QUOTE, LF]
       @ ofStr ''file '' @ [QUOTE] @ ofStr ''/o'' @ [QUOTE] @ ofStr ''b/u/1_b.mp4'' @ [QUOTE]"
proof -
  let ?w = "(ex_world (Uploaded (Some [ex_qa, ex_qb])))\<lparr>uploadDir := ex_quoted_dir\<rparr>"
  have h: "upload ?w = Uploaded (Some [ex_qa, ex_qb])" "2 \<le> length [ex_qa, ex_qb]"
    "writeFile_error ?w = None" "ffmpeg_result ?w = FfEnd"
    by (simp_all add: ex_world_def)
  have f: "sep ?w = ofStr ''/''" "uploadDir ?w = ex_quoted_dir" "now_list ?w = 2"
    "now_output ?w = 3" "sendErr ?w = None"
    by (simp_all add: ex_world_def)
  have r: "\<And>ps. removal_events (remove_fails ?w) ps = map (\<lambda>p. Remove p True) ps"
    by (simp add: removal_events_all ex_world_def)
  have t: "trace (init {}) = []" by (simp add: init_def)
  have "trace (merge_handler ?w (init {})) =
       [WriteFile (concatListPath (ofStr ''/'') ex_quoted_dir 2) (listContent [ex_qa, ex_qb]),
        RunFfmpeg (concatListPath (ofStr ''/'') ex_quoted_dir 2)
          (outputPath (ofStr ''/'') ex_quoted_dir 3),
        RespondDownload (outputPath (ofStr ''/'') ex_quoted_dir 3) (ofStr ''merged.mp4'') None,
        CleanupCall [ex_qa, ex_qb] (Some (concatListPath (ofStr ''/'') ex_quoted_dir 2))
          (Some (outputPath (ofStr ''/'') ex_quoted_dir 3)),
        Remove (path ex_qa) True, Remove (path ex_qb) True,
        Remove (concatListPath (ofStr ''/'') ex_quoted_dir 2) True,
        Remove (outputPath (ofStr ''/'') ex_quoted_dir 3) True]"
    unfolding trace_handler_end [OF h] r f t by simp
  moreover have "QUOTE \<in> set (path ex_qa)"
    by (simp add: ex_qa_def ex_quoted_dir_def)
  moreover have "listContent [ex_qa, ex_qb] =
       ofStr ''file '' @ [QUOTE] @ ofStr ''/o'' @ [QUOTE] @ ofStr ''b/u/1_a.mp4'' @ [QUOTE, LF]
       @ ofStr ''file '' @ [QUOTE] @ ofStr ''/o'' @ [QUOTE] @ ofStr ''b/u/1_b.mp4'' @ [QUOTE]"
    by (simp add: listContent_def list_entry_def forward_slashes_def ex_qa_def ex_qb_def
        ex_quoted_dir_def ofStr_def QUOTE_def BACKSLASH_def)
  ultimately show ?thesis by blast
qed

end
